theory Spec2Isabelle
  imports Main "HOL-Library.Sublist"
begin

section \<open>JavaScript values\<close>

text \<open>
  The values the library receives and produces: the JSON-like part of JavaScript.
  \<open>JNum\<close> carries an integer-valued Number in the safe range (absolute value below
  \<open>2^53\<close>), where \<open>String(n)\<close> is the exact decimal numeral; fractions, \<open>NaN\<close>, the
  infinities and the integers beyond that range are not among the values.  \<open>JObj\<close> lists the own enumerable
  string-keyed properties of a plain object in the order in which \<open>Object.entries\<close> and
  \<open>Object.keys\<close> enumerate them.
\<close>

datatype jsval =
    JUndefined
  | JNull
  | JBool bool
  | JNum int
  | JStr string
  | JArr "jsval list"
  | JObj "(string \<times> jsval) list"

text \<open>A thrown value: its constructor and its \<open>message\<close> property.\<close>

datatype js_error = TypeError string | Error string

fun message :: "js_error \<Rightarrow> string" where
  "message (TypeError m) = m"
| "message (Error m) = m"

definition digit_char :: "nat \<Rightarrow> char" where
  "digit_char d = ''0123456789'' ! d"

fun nat_digits :: "nat \<Rightarrow> string" where
  "nat_digits n =
     (if n < 10 then [digit_char n] else nat_digits (n div 10) @ [digit_char (n mod 10)])"

declare nat_digits.simps [simp del]

definition number_toString :: "int \<Rightarrow> string" where
  "number_toString i = (if i < 0 then ''-'' @ nat_digits (nat (- i)) else nat_digits (nat i))"

text \<open>\<open>parts.join(sep)\<close> on strings.\<close>

fun js_join :: "string \<Rightarrow> string list \<Rightarrow> string" where
  "js_join sep [] = []"
| "js_join sep [x] = x"
| "js_join sep (x # y # ys) = x @ sep @ js_join sep (y # ys)"

text \<open>
  \<open>String(v)\<close>, which is what a template literal \<open>`${v}`\<close> interpolates.  An array is
  its elements joined by a comma, \<open>null\<close> and \<open>undefined\<close> elements giving the empty string.
\<close>

fun toString :: "jsval \<Rightarrow> string" where
  "toString JUndefined = ''undefined''"
| "toString JNull = ''null''"
| "toString (JBool b) = (if b then ''true'' else ''false'')"
| "toString (JNum n) = number_toString n"
| "toString (JStr s) = s"
| "toString (JArr xs) =
     js_join '','' (map (\<lambda>x. if x = JUndefined \<or> x = JNull then [] else toString x) xs)"
| "toString (JObj es) = ''[object Object]''"

text \<open>
  \<open>xs.join(sep)\<close> on an array of values; \<open>element_text\<close> is the text of one element.
\<close>

definition element_text :: "jsval \<Rightarrow> string" where
  "element_text x = (if x = JUndefined \<or> x = JNull then [] else toString x)"

definition array_join :: "string \<Rightarrow> jsval list \<Rightarrow> string" where
  "array_join sep xs = js_join sep (map element_text xs)"

text \<open>The truthiness test of \<open>if (v)\<close> and \<open>v || d\<close>.\<close>

fun truthy :: "jsval \<Rightarrow> bool" where
  "truthy JUndefined = False"
| "truthy JNull = False"
| "truthy (JBool b) = b"
| "truthy (JNum n) = (n \<noteq> 0)"
| "truthy (JStr s) = (s \<noteq> [])"
| "truthy (JArr xs) = True"
| "truthy (JObj es) = True"

definition js_or :: "jsval \<Rightarrow> jsval \<Rightarrow> jsval" where
  "js_or a b = (if truthy a then a else b)"

text \<open>
  \<open>Object.entries(v)\<close>: it throws on \<open>null\<close> and \<open>undefined\<close>, enumerates the indices
  of an array or a string, and finds nothing in a number or a boolean.
\<close>

definition indexed :: "'a list \<Rightarrow> (string \<times> 'a) list" where
  "indexed xs = zip (map nat_digits [0 ..< length xs]) xs"

fun object_entries :: "jsval \<Rightarrow> js_error + (string \<times> jsval) list" where
  "object_entries JUndefined = Inl (TypeError ''Cannot convert undefined or null to object'')"
| "object_entries JNull = Inl (TypeError ''Cannot convert undefined or null to object'')"
| "object_entries (JBool b) = Inr []"
| "object_entries (JNum n) = Inr []"
| "object_entries (JStr s) = Inr (indexed (map (\<lambda>c. JStr [c]) s))"
| "object_entries (JArr xs) = Inr (indexed xs)"
| "object_entries (JObj es) = Inr es"

text \<open>
  A \<open>for (... of ...)\<close> loop whose body may throw: the first throw ends the loop, and what
  the earlier iterations stored stays stored.
\<close>

fun for_each :: "('a \<Rightarrow> 's \<Rightarrow> js_error option \<times> 's) \<Rightarrow> 'a list \<Rightarrow> 's \<Rightarrow> js_error option \<times> 's" where
  "for_each body [] s = (None, s)"
| "for_each body (x # xs) s =
     (case body x s of
        (None, s') \<Rightarrow> for_each body xs s'
      | (Some e, s') \<Rightarrow> (Some e, s'))"

section \<open>QueryBuilder\<close>

record join_entry =
  j_type :: jsval
  j_table :: jsval
  j_condition :: jsval

text \<open>The object \<open>this.query\<close>.\<close>

record query =
  q_select :: "jsval list"
  q_from :: jsval
  q_joins :: "join_entry list"
  q_where :: "string list"
  q_groupBy :: "jsval list"
  q_having :: "string list"
  q_orderBy :: "jsval list"
  q_limit :: jsval
  q_offset :: jsval

text \<open>The constructor's initial \<open>this.query\<close>.\<close>

definition new_QueryBuilder :: query where
  "new_QueryBuilder =
     \<lparr>q_select = [], q_from = JStr [], q_joins = [], q_where = [], q_groupBy = [],
      q_having = [], q_orderBy = [], q_limit = JNull, q_offset = JNull\<rparr>"

fun select :: "jsval \<Rightarrow> query \<Rightarrow> query" where
  "select (JStr flds) q =
     q\<lparr>q_select := (if flds = ''*'' then [JStr ''*''] else [JStr flds])\<rparr>"
| "select (JArr flds) q = q\<lparr>q_select := flds\<rparr>"
| "select flds q = q"

definition qb_from :: "jsval \<Rightarrow> query \<Rightarrow> query" where
  "qb_from table q = q\<lparr>q_from := table\<rparr>"

text \<open>\<open>join(table, condition, type = 'INNER')\<close>: the default stands in for \<open>undefined\<close>.\<close>

definition join :: "jsval \<Rightarrow> jsval \<Rightarrow> jsval \<Rightarrow> query \<Rightarrow> query" where
  "join table condition type q =
     q\<lparr>q_joins := q_joins q @
        [\<lparr>j_type = (if type = JUndefined then JStr ''INNER'' else type),
          j_table = table, j_condition = condition\<rparr>]\<rparr>"

definition leftJoin :: "jsval \<Rightarrow> jsval \<Rightarrow> query \<Rightarrow> query" where
  "leftJoin table condition q = join table condition (JStr ''LEFT'') q"

definition rightJoin :: "jsval \<Rightarrow> jsval \<Rightarrow> query \<Rightarrow> query" where
  "rightJoin table condition q = join table condition (JStr ''RIGHT'') q"

text \<open>\<open>this.query.where.push(fragment)\<close>.\<close>

definition push_where :: "string \<Rightarrow> query \<Rightarrow> query" where
  "push_where fragment q = q\<lparr>q_where := q_where q @ [fragment]\<rparr>"

text \<open>\<open>value.map(v => `'${v}'`).join(', ')\<close>.\<close>

definition quoted_list :: "jsval list \<Rightarrow> string" where
  "quoted_list vs = js_join '', '' (map (\<lambda>v. [CHR 0x27] @ toString v @ [CHR 0x27]) vs)"

text \<open>
  The receiver of \<open>value.map(...)\<close>: \<open>map\<close> exists on arrays only, so the call throws
  on anything else (the messages are those of V8).
\<close>

fun array_of :: "jsval \<Rightarrow> js_error + jsval list" where
  "array_of (JArr vs) = Inr vs"
| "array_of JUndefined =
     Inl (TypeError ''Cannot read properties of undefined (reading 'map')'')"
| "array_of JNull = Inl (TypeError ''Cannot read properties of null (reading 'map')'')"
| "array_of v = Inl (TypeError ''value.map is not a function'')"

text \<open>
  One iteration of the loop of \<open>handleComplexCondition\<close>: the \<open>switch\<close> on the operator.
\<close>

fun complex_case :: "string \<Rightarrow> string \<times> jsval \<Rightarrow> query \<Rightarrow> js_error option \<times> query" where
  "complex_case field (operator, value) q =
     (if operator = ''gt'' then
        (None, push_where (field @ '' > '' @ [CHR 0x27] @ toString value @ [CHR 0x27]) q)
      else if operator = ''gte'' then
        (None, push_where (field @ '' >= '' @ [CHR 0x27] @ toString value @ [CHR 0x27]) q)
      else if operator = ''lt'' then
        (None, push_where (field @ '' < '' @ [CHR 0x27] @ toString value @ [CHR 0x27]) q)
      else if operator = ''lte'' then
        (None, push_where (field @ '' <= '' @ [CHR 0x27] @ toString value @ [CHR 0x27]) q)
      else if operator = ''ne'' then
        (None, push_where (field @ '' != '' @ [CHR 0x27] @ toString value @ [CHR 0x27]) q)
      else if operator = ''like'' then
        (None, push_where (field @ '' LIKE '' @ [CHR 0x27] @ toString value @ [CHR 0x27]) q)
      else if operator = ''in'' then
        (case array_of value of
           Inr vs \<Rightarrow> (None, push_where (field @ '' IN ('' @ quoted_list vs @ '')'') q)
         | Inl error \<Rightarrow> (Some error, q))
      else if operator = ''notIn'' then
        (case array_of value of
           Inr vs \<Rightarrow> (None, push_where (field @ '' NOT IN ('' @ quoted_list vs @ '')'') q)
         | Inl error \<Rightarrow> (Some error, q))
      else (None, q))"

definition handleComplexCondition :: "string \<Rightarrow> jsval \<Rightarrow> query \<Rightarrow> js_error option \<times> query" where
  "handleComplexCondition field condition q =
     (case object_entries condition of
        Inl e \<Rightarrow> (Some e, q)
      | Inr entries \<Rightarrow> for_each (complex_case field) entries q)"

text \<open>
  One iteration of the loop of \<open>where\<close>.  \<open>typeof value === 'object' && value !== null\<close>
  after the array test leaves the plain objects.
\<close>

fun where_case :: "string \<times> jsval \<Rightarrow> query \<Rightarrow> js_error option \<times> query" where
  "where_case (field, JArr value) q =
     (None, push_where (field @ '' IN ('' @ quoted_list value @ '')'') q)"
| "where_case (field, JObj es) q = handleComplexCondition field (JObj es) q"
| "where_case (field, value) q =
     (None, push_where (field @ '' = '' @ [CHR 0x27] @ toString value @ [CHR 0x27]) q)"

text \<open>
  \<open>where(conditions)\<close>.  The result is the thrown error, if any, and \<open>this.query\<close> as the
  call leaves it.  \<open>typeof\<close> is \<open>'object'\<close> for \<open>null\<close>, arrays and objects.
\<close>

fun qb_where :: "jsval \<Rightarrow> query \<Rightarrow> js_error option \<times> query" where
  "qb_where (JStr conditions) q = (None, push_where conditions q)"
| "qb_where JUndefined q = (None, q)"
| "qb_where (JBool b) q = (None, q)"
| "qb_where (JNum n) q = (None, q)"
| "qb_where conditions q =
     (case object_entries conditions of
        Inl e \<Rightarrow> (Some e, q)
      | Inr entries \<Rightarrow> for_each where_case entries q)"

fun groupBy :: "jsval \<Rightarrow> query \<Rightarrow> query" where
  "groupBy (JStr flds) q = q\<lparr>q_groupBy := [JStr flds]\<rparr>"
| "groupBy (JArr flds) q = q\<lparr>q_groupBy := flds\<rparr>"
| "groupBy flds q = q"

fun having :: "jsval \<Rightarrow> query \<Rightarrow> query" where
  "having (JStr conditions) q = q\<lparr>q_having := q_having q @ [conditions]\<rparr>"
| "having conditions q = q"

text \<open>\<open>orderBy(field, direction = 'ASC')\<close>.\<close>

fun orderBy :: "jsval \<Rightarrow> jsval \<Rightarrow> query \<Rightarrow> query" where
  "orderBy (JStr field) direction q =
     q\<lparr>q_orderBy := q_orderBy q @
        [JStr (field @ '' '' @ toString (if direction = JUndefined then JStr ''ASC'' else direction))]\<rparr>"
| "orderBy (JArr field) direction q = q\<lparr>q_orderBy := field\<rparr>"
| "orderBy field direction q = q"

definition limit :: "jsval \<Rightarrow> query \<Rightarrow> query" where
  "limit count q = q\<lparr>q_limit := count\<rparr>"

definition offset :: "jsval \<Rightarrow> query \<Rightarrow> query" where
  "offset count q = q\<lparr>q_offset := count\<rparr>"

text \<open>
  \<open>build()\<close>: the statement it returns, and \<open>this.query\<close> as the call leaves it.
\<close>

definition build :: "query \<Rightarrow> string \<times> query" where
  "build q =
     (let sql = ''SELECT '' @ array_join '', '' (q_select q) @ '' FROM '' @ toString (q_from q);
          sql = foldl (\<lambda>sql j. sql @ '' '' @ toString (j_type j) @ '' JOIN '' @
                  toString (j_table j) @ '' ON '' @ toString (j_condition j)) sql (q_joins q);
          sql = (if length (q_where q) > 0
                 then sql @ '' WHERE '' @ js_join '' AND '' (q_where q) else sql);
          sql = (if length (q_groupBy q) > 0
                 then sql @ '' GROUP BY '' @ array_join '', '' (q_groupBy q) else sql);
          sql = (if length (q_having q) > 0
                 then sql @ '' HAVING '' @ js_join '' AND '' (q_having q) else sql);
          sql = (if length (q_orderBy q) > 0
                 then sql @ '' ORDER BY '' @ array_join '', '' (q_orderBy q) else sql);
          sql = (if q_limit q \<noteq> JNull then sql @ '' LIMIT '' @ toString (q_limit q) else sql);
          sql = (if q_offset q \<noteq> JNull then sql @ '' OFFSET '' @ toString (q_offset q) else sql)
      in (sql, q))"

text \<open>
  Property reads \<open>v.name\<close> and \<open>v[i]\<close>.  Reading a property of \<open>null\<close> or \<open>undefined\<close>
  throws; a name that is no own property reads as \<open>undefined\<close> (the names read here are
  none of the built-in ones).
\<close>

fun get_prop :: "jsval \<Rightarrow> string \<Rightarrow> js_error + jsval" where
  "get_prop JUndefined name = Inl (TypeError (''Cannot read properties of undefined (reading '' @ [CHR 0x27] @ name @ [CHR 0x27] @ '')''))"
| "get_prop JNull name = Inl (TypeError (''Cannot read properties of null (reading '' @ [CHR 0x27] @ name @ [CHR 0x27] @ '')''))"
| "get_prop (JObj es) name = Inr (case map_of es name of None \<Rightarrow> JUndefined | Some v \<Rightarrow> v)"
| "get_prop v name = Inr JUndefined"

fun get_index :: "jsval \<Rightarrow> nat \<Rightarrow> js_error + jsval" where
  "get_index JUndefined i = Inl (TypeError (''Cannot read properties of undefined (reading '' @ [CHR 0x27] @ nat_digits i @ [CHR 0x27] @ '')''))"
| "get_index JNull i = Inl (TypeError (''Cannot read properties of null (reading '' @ [CHR 0x27] @ nat_digits i @ [CHR 0x27] @ '')''))"
| "get_index (JArr xs) i = Inr (if i < length xs then xs ! i else JUndefined)"
| "get_index (JStr s) i = Inr (if i < length s then JStr [s ! i] else JUndefined)"
| "get_index (JObj es) i = Inr (case map_of es (nat_digits i) of None \<Rightarrow> JUndefined | Some v \<Rightarrow> v)"
| "get_index v i = Inr JUndefined"

section \<open>Connection\<close>

text \<open>
  The external client library.  \<open>createClient\<close> returns a client or throws;
  \<open>client.query\<close> resolves to a result set or rejects, and may depend on the requests the
  client has received before; \<open>json()\<close> of a result set resolves to the parsed response or
  rejects.
\<close>

record client_options =
  co_host :: string
  co_username :: jsval
  co_password :: jsval
  co_database :: jsval
  co_clickhouse_settings :: jsval

record request =
  r_query :: string
  r_format :: jsval
  r_query_params :: jsval

datatype result_set = ResultSet (json: "js_error + jsval")

record 'c driver =
  createClient :: "client_options \<Rightarrow> js_error + 'c"
  client_query :: "'c \<Rightarrow> request list \<Rightarrow> request \<Rightarrow> js_error + result_set"

text \<open>\<open>this.config\<close> of a connection, as the constructor leaves it.\<close>

record config =
  host :: jsval
  port :: jsval
  username :: jsval
  password :: jsval
  database :: jsval
  settings :: jsval

text \<open>
  A connection: \<open>this.config\<close>, \<open>this.client\<close> (\<open>None\<close> for \<open>null\<close>) and
  \<open>this.isConnected\<close>; \<open>requests\<close> is the list of requests handed to
  \<open>client.query\<close> so far.
\<close>

record 'c connection =
  conn_config :: config
  client :: "'c option"
  isConnected :: bool
  requests :: "request list"

definition connect :: "'c driver \<Rightarrow> 'c connection \<Rightarrow> (js_error + 'c option) \<times> 'c connection" where
  "connect drv c =
     (if isConnected c then (Inr (client c), c)
      else
        (case createClient drv
                \<lparr>co_host = ''http://'' @ toString (host (conn_config c)) @ '':'' @
                     toString (port (conn_config c)),
                 co_username = username (conn_config c),
                 co_password = password (conn_config c),
                 co_database = database (conn_config c),
                 co_clickhouse_settings = js_or (settings (conn_config c)) (JObj [])\<rparr> of
           Inl error \<Rightarrow>
             (Inl (Error (''Failed to connect to ClickHouse: '' @ message error)), c)
         | Inr cl \<Rightarrow> (Inr (Some cl), c\<lparr>client := Some cl, isConnected := True\<rparr>)))"

record query_options =
  o_format :: jsval
  o_params :: jsval

text \<open>What \<open>query\<close> resolves to: the parsed response, or the result set itself.\<close>

datatype query_result = Parsed jsval | Unparsed result_set

text \<open>
  \<open>query(sql, options = {})\<close>.  The \<open>try\<close> block covers \<open>connect\<close> and the awaited
  \<open>client.query\<close>; \<open>result.json()\<close> is returned without being awaited, so its
  rejection passes the \<open>catch\<close> by.
\<close>

definition query :: "'c driver \<Rightarrow> string \<Rightarrow> query_options \<Rightarrow> 'c connection \<Rightarrow>
    (js_error + query_result) \<times> 'c connection" where
  "query drv sql options c =
     (case connect drv c of
        (Inl error, c1) \<Rightarrow> (Inl (Error (''Query execution failed: '' @ message error)), c1)
      | (Inr None, c1) \<Rightarrow>
          (Inl (Error (''Query execution failed: '' @
             message (TypeError ''Cannot read properties of null (reading 'query')''))), c1)
      | (Inr (Some cl), c1) \<Rightarrow>
          (let req = \<lparr>r_query = sql,
                      r_format = js_or (o_format options) (JStr ''JSON''),
                      r_query_params = js_or (o_params options) (JObj [])\<rparr>;
               c2 = c1\<lparr>requests := requests c1 @ [req]\<rparr>
           in case client_query drv cl (requests c1) req of
                Inl error \<Rightarrow> (Inl (Error (''Query execution failed: '' @ message error)), c2)
              | Inr result \<Rightarrow>
                  if o_format options = JStr ''JSON'' \<or> \<not> truthy (o_format options)
                  then (case json result of
                          Inl error \<Rightarrow> (Inl error, c2)
                        | Inr v \<Rightarrow> (Inr (Parsed v), c2))
                  else (Inr (Unparsed result), c2)))"

text \<open>\<open>execute()\<close> of the query builder: \<open>this.connection.query(this.build())\<close>.\<close>

definition execute :: "'c driver \<Rightarrow> query \<Rightarrow> 'c connection \<Rightarrow>
    (js_error + query_result) \<times> 'c connection" where
  "execute drv q c =
     (let (sql, q') = build q
      in query drv sql \<lparr>o_format = JUndefined, o_params = JUndefined\<rparr> c)"

section \<open>Model\<close>

record model_options =
  mo_engine :: jsval
  mo_orderBy :: jsval
  mo_settings :: jsval

record model =
  tableName :: jsval
  attributes :: jsval
  options :: model_options

record find_options =
  fo_attributes :: jsval
  fo_where :: jsval
  fo_orderBy :: jsval
  fo_limit :: jsval
  fo_offset :: jsval

text \<open>\<open>result.data\<close> of what \<open>execute\<close> resolved to; a result set object has no such property.\<close>

fun result_data :: "query_result \<Rightarrow> js_error + jsval" where
  "result_data (Parsed v) = get_prop v ''data''"
| "result_data (Unparsed r) = Inr JUndefined"

definition findAll :: "'c driver \<Rightarrow> model \<Rightarrow> find_options \<Rightarrow> 'c connection \<Rightarrow>
    (js_error + jsval) \<times> 'c connection" where
  "findAll drv m opts c =
     (let q = qb_from (tableName m)
                (select (js_or (fo_attributes opts) (JStr ''*'')) new_QueryBuilder);
          (thrown, q) = (if truthy (fo_where opts) then qb_where (fo_where opts) q else (None, q))
      in case thrown of
           Some error \<Rightarrow> (Inl error, c)
         | None \<Rightarrow>
             (let q = (if truthy (fo_orderBy opts) then orderBy (fo_orderBy opts) JUndefined q else q);
                  q = (if truthy (fo_limit opts) then limit (fo_limit opts) q else q);
                  q = (if truthy (fo_offset opts) then offset (fo_offset opts) q else q)
              in case execute drv q c of
                   (Inl error, c') \<Rightarrow> (Inl error, c')
                 | (Inr result, c') \<Rightarrow>
                     (case result_data result of
                        Inl error \<Rightarrow> (Inl error, c')
                      | Inr d \<Rightarrow> (Inr (js_or d (JArr [])), c'))))"

text \<open>\<open>findOne(options = {})\<close>: \<open>findAll({...options, limit: 1})\<close>, then \<open>results[0] || null\<close>.\<close>

definition findOne :: "'c driver \<Rightarrow> model \<Rightarrow> find_options \<Rightarrow> 'c connection \<Rightarrow>
    (js_error + jsval) \<times> 'c connection" where
  "findOne drv m opts c =
     (case findAll drv m (opts\<lparr>fo_limit := JNum 1\<rparr>) c of
        (Inl error, c') \<Rightarrow> (Inl error, c')
      | (Inr results, c') \<Rightarrow>
          (case get_index results 0 of
             Inl error \<Rightarrow> (Inl error, c')
           | Inr r \<Rightarrow> (Inr (js_or r JNull), c')))"

section \<open>Schema\<close>







section \<open>Notions used in the statements\<close>

text \<open>A scalar is a value that is neither an array nor an object.\<close>

fun is_scalar :: "jsval \<Rightarrow> bool" where
  "is_scalar (JArr xs) = False"
| "is_scalar (JObj es) = False"
| "is_scalar v = True"

text \<open>
  The operator table of the specification: the recognised tags, the quoting of a value, and
  the fragment of each tag.  An entry of an operator map carries a recognised tag, and a
  sequence of values under \<open>in\<close> and \<open>notIn\<close>.
\<close>

definition recognised_operators :: "string list" where
  "recognised_operators = [''gt'', ''gte'', ''lt'', ''lte'', ''ne'', ''like'', ''in'', ''notIn'']"

definition quoted :: "jsval \<Rightarrow> string" where
  "quoted v = [CHR 0x27] @ toString v @ [CHR 0x27]"

fun sequence_of :: "jsval \<Rightarrow> jsval list" where
  "sequence_of (JArr vs) = vs"
| "sequence_of v = []"

fun operator_table :: "string \<Rightarrow> string \<times> jsval \<Rightarrow> string" where
  "operator_table f (tag, v) =
     (if tag = ''gt'' then f @ '' > '' @ quoted v
      else if tag = ''gte'' then f @ '' >= '' @ quoted v
      else if tag = ''lt'' then f @ '' < '' @ quoted v
      else if tag = ''lte'' then f @ '' <= '' @ quoted v
      else if tag = ''ne'' then f @ '' != '' @ quoted v
      else if tag = ''like'' then f @ '' LIKE '' @ quoted v
      else if tag = ''in'' then f @ '' IN ('' @ js_join '', '' (map quoted (sequence_of v)) @ '')''
      else if tag = ''notIn'' then
        f @ '' NOT IN ('' @ js_join '', '' (map quoted (sequence_of v)) @ '')''
      else [])"

fun operator_entry :: "string \<times> jsval \<Rightarrow> bool" where
  "operator_entry (tag, v) =
     (tag \<in> set recognised_operators \<and>
      (if tag = ''in'' \<or> tag = ''notIn'' then (case v of JArr vs \<Rightarrow> True | _ \<Rightarrow> False)
       else True))"

text \<open>
  The texts a statement takes from the caller: the rendered columns, table, join parts,
  fragments, conditions, sort keys, limit and offset.  A keyword is absent from a query when
  none of these texts contains it.
\<close>

definition caller_texts :: "query \<Rightarrow> string list" where
  "caller_texts q =
     map element_text (q_select q) @ [toString (q_from q)] @
     concat (map (\<lambda>j. [toString (j_type j), toString (j_table j), toString (j_condition j)])
       (q_joins q)) @
     q_where q @ map element_text (q_groupBy q) @ q_having q @ map element_text (q_orderBy q) @
     [toString (q_limit q), toString (q_offset q)]"

definition keyword_free :: "string \<Rightarrow> query \<Rightarrow> bool" where
  "keyword_free kw q = (\<forall>t\<in>set (caller_texts q). \<not> sublist kw t)"

text \<open>The statement as words separated by single spaces (used in the proofs).\<close>

definition spaced :: "string list \<Rightarrow> string" where
  "spaced ws = concat (map (\<lambda>w. CHR '' '' # w) ws)"

definition build_tokens :: "query \<Rightarrow> string list" where
  "build_tokens q =
     [array_join '', '' (q_select q), ''FROM'', toString (q_from q)] @
     concat (map (\<lambda>j. [toString (j_type j), ''JOIN'', toString (j_table j), ''ON'',
                        toString (j_condition j)]) (q_joins q)) @
     (if q_where q = [] then [] else [''WHERE'', js_join '' AND '' (q_where q)]) @
     (if q_groupBy q = [] then [] else [''GROUP'', ''BY'', array_join '', '' (q_groupBy q)]) @
     (if q_having q = [] then [] else [''HAVING'', js_join '' AND '' (q_having q)]) @
     (if q_orderBy q = [] then [] else [''ORDER'', ''BY'', array_join '', '' (q_orderBy q)]) @
     (if q_limit q = JNull then [] else [''LIMIT'', toString (q_limit q)]) @
     (if q_offset q = JNull then [] else [''OFFSET'', toString (q_offset q)])"

text \<open>A row of a result: a mapping from column names to values.\<close>

fun is_row :: "jsval \<Rightarrow> bool" where
  "is_row (JObj es) = True"
| "is_row v = False"




subsection \<open>Example inputs\<close>

definition fresh_connection :: "unit connection" where
  "fresh_connection =
     \<lparr>conn_config = \<lparr>host = JStr ''localhost'', port = JNum 8123, username = JStr ''default'',
         password = JStr [], database = JStr ''default'', settings = JUndefined\<rparr>,
      client = None, isConnected = False, requests = []\<rparr>"

text \<open>A client whose every query is rejected, and one that answers every query alike.\<close>

definition failing_driver :: "unit driver" where
  "failing_driver = \<lparr>createClient = (\<lambda>opts. Inr ()),
      client_query = (\<lambda>cl log req. Inl (Error ''Syntax error''))\<rparr>"

definition answering_driver :: "jsval \<Rightarrow> unit driver" where
  "answering_driver response = \<lparr>createClient = (\<lambda>opts. Inr ()),
      client_query = (\<lambda>cl log req. Inr (ResultSet (Inr response)))\<rparr>"

definition no_options :: find_options where
  "no_options = \<lparr>fo_attributes = JUndefined, fo_where = JUndefined, fo_orderBy = JUndefined,
     fo_limit = JUndefined, fo_offset = JUndefined\<rparr>"


definition users_attributes :: "(string \<times> jsval) list" where
  "users_attributes =
     [(''id'', JObj [(''type'', JStr ''UInt32''), (''primaryKey'', JBool True)]),
      (''name'', JStr ''String''),
      (''age'', JObj [(''type'', JStr ''UInt8''), (''defaultValue'', JNum 0)])]"

definition users_model :: model where
  "users_model = \<lparr>tableName = JStr ''users'', attributes = JObj users_attributes,
     options = \<lparr>mo_engine = JStr ''MergeTree()'', mo_orderBy = JStr ''name'',
                 mo_settings = JObj [(''index_granularity'', JNum 8192)]\<rparr>\<rparr>"


section \<open>Filter conditions\<close>

lemma where_single_entry: "qb_where (JObj [(f, v)]) q = where_case (f, v) q"
  by (simp split: prod.splits option.splits)

lemma complex_case_table:
  "operator_entry e \<Longrightarrow> complex_case f e q = (None, push_where (operator_table f e) q)"
  by (cases e)
     (auto simp: recognised_operators_def quoted_def[abs_def] quoted_list_def split: jsval.splits)

lemma for_each_complex_table:
  "\<forall>e\<in>set es. operator_entry e \<Longrightarrow>
   for_each (complex_case f) es q =
     (None, q\<lparr>q_where := q_where q @ map (operator_table f) es\<rparr>)"
proof (induction es arbitrary: q)
  case Nil
  then show ?case by simp
next
  case (Cons e es)
  then show ?case
    by (simp add: complex_case_table push_where_def
        del: complex_case.simps operator_entry.simps operator_table.simps)
qed

lemma complex_case_unrecognised:
  "tag \<notin> set recognised_operators \<Longrightarrow> complex_case f (tag, v) q = (None, q)"
  by (simp add: recognised_operators_def)

lemma for_each_append:
  "for_each body (xs @ ys) s =
     (case for_each body xs s of
        (None, s') \<Rightarrow> for_each body ys s'
      | (Some e, s') \<Rightarrow> (Some e, s'))"
  by (induction xs arbitrary: s) (auto split: prod.splits option.splits)

lemma for_each_skip:
  "(\<And>s. body x s = (None, s)) \<Longrightarrow>
   for_each body (xs @ x # ys) s = for_each body (xs @ ys) s"
  by (simp add: for_each_append split: prod.splits option.splits)

lemma build_where_parts:
  "\<exists>pre post. \<forall>ws. fst (build (q\<lparr>q_where := ws\<rparr>)) =
      pre @ (if ws = [] then [] else '' WHERE '' @ js_join '' AND '' ws) @ post"
  apply (rule exI[of _ "foldl (\<lambda>sql j. sql @ '' '' @ toString (j_type j) @ '' JOIN '' @
            toString (j_table j) @ '' ON '' @ toString (j_condition j))
          (''SELECT '' @ array_join '', '' (q_select q) @ '' FROM '' @ toString (q_from q))
          (q_joins q)"])
  apply (rule exI[of _
        "(if q_groupBy q = [] then [] else '' GROUP BY '' @ array_join '', '' (q_groupBy q)) @
         (if q_having q = [] then [] else '' HAVING '' @ js_join '' AND '' (q_having q)) @
         (if q_orderBy q = [] then [] else '' ORDER BY '' @ array_join '', '' (q_orderBy q)) @
         (if q_limit q = JNull then [] else '' LIMIT '' @ toString (q_limit q)) @
         (if q_offset q = JNull then [] else '' OFFSET '' @ toString (q_offset q))"])
  apply (simp add: build_def Let_def)
  done

lemmas eval_number = number_toString_def nat_digits.simps digit_char_def

lemmas eval_builder = build_def qb_from_def new_QueryBuilder_def array_join_def element_text_def
  push_where_def limit_def offset_def

text \<open>
  C1.  For a field \<open>f\<close> and an operator map whose entries carry recognised tags (with a
  sequence of values under \<open>in\<close> and \<open>notIn\<close>), \<open>where({f: map})\<close> throws nothing and
  appends one fragment per entry, in the order of the entries, each as the operator table
  renders it.  \<open>build()\<close> puts the accumulated fragments, joined by \<open>AND\<close>, after
  \<open>WHERE\<close>, between a text before and a text after that do not depend on them.  In
  particular \<open>where({age: {gte: 18, lte: 65}})\<close> on \<open>select('*').from('users')\<close> builds
  \<open>SELECT * FROM users WHERE age >= '18' AND age <= '65'\<close>.
\<close>

theorem where_operator_map_fragments:
  "((\<forall>e\<in>set es. operator_entry e) \<longrightarrow>
      qb_where (JObj [(f, JObj es)]) q =
        (None, q\<lparr>q_where := q_where q @ map (operator_table f) es\<rparr>))
   \<and> (\<exists>pre post. \<forall>ws. fst (build (q\<lparr>q_where := ws\<rparr>)) =
         pre @ (if ws = [] then [] else '' WHERE '' @ js_join '' AND '' ws) @ post)
   \<and> fst (build (snd (qb_where
         (JObj [(''age'', JObj [(''gte'', JNum 18), (''lte'', JNum 65)])])
         (qb_from (JStr ''users'') (select (JStr ''*'') new_QueryBuilder))))) =
       ''SELECT * FROM users WHERE age >= '18' AND age <= '65'' @ [CHR 0x27]"
proof (intro conjI impI)
  assume "\<forall>e\<in>set es. operator_entry e"
  then show "qb_where (JObj [(f, JObj es)]) q =
        (None, q\<lparr>q_where := q_where q @ map (operator_table f) es\<rparr>)"
    by (simp add: where_single_entry handleComplexCondition_def for_each_complex_table)
next
  show "\<exists>pre post. \<forall>ws. fst (build (q\<lparr>q_where := ws\<rparr>)) =
         pre @ (if ws = [] then [] else '' WHERE '' @ js_join '' AND '' ws) @ post"
    by (rule build_where_parts)
next
  show "fst (build (snd (qb_where
         (JObj [(''age'', JObj [(''gte'', JNum 18), (''lte'', JNum 65)])])
         (qb_from (JStr ''users'') (select (JStr ''*'') new_QueryBuilder))))) =
       ''SELECT * FROM users WHERE age >= '18' AND age <= '65'' @ [CHR 0x27]"
    by (simp add: where_single_entry handleComplexCondition_def eval_builder eval_number)
qed

theorem where_operator_map_fragments_witness:
  "qb_where (JObj [(''status'', JObj [(''ne'', JStr ''banned''),
                                      (''in'', JArr [JStr ''active'', JStr ''pending''])])])
     new_QueryBuilder =
   (None, new_QueryBuilder\<lparr>q_where :=
      [''status != 'banned'' @ [CHR 0x27], ''status IN ('active', 'pending')'']\<rparr>)"
  using where_operator_map_fragments[of
      "[(''ne'', JStr ''banned''), (''in'', JArr [JStr ''active'', JStr ''pending''])]"
      "''status''" new_QueryBuilder]
  by (simp add: recognised_operators_def quoted_def new_QueryBuilder_def)

text \<open>
  C2.  For a field \<open>f\<close> and a scalar \<open>v\<close>, \<open>where({f: v})\<close> appends exactly the fragment
  \<open>f = 'v'\<close>, the text of \<open>v\<close> between single quotes whatever its type; a string is put
  there as it is, its own quote characters included.  An array value gives
  \<open>f IN ('v1', 'v2', ...)\<close> with every element quoted the same way, in the order given.
\<close>

theorem where_scalar_and_array_fragments:
  "(is_scalar v \<longrightarrow>
      qb_where (JObj [(f, v)]) q =
        (None, q\<lparr>q_where := q_where q @
           [f @ '' = '' @ [CHR 0x27] @ toString v @ [CHR 0x27]]\<rparr>))
   \<and> qb_where (JObj [(f, JStr s)]) q =
        (None, q\<lparr>q_where := q_where q @ [f @ '' = '' @ [CHR 0x27] @ s @ [CHR 0x27]]\<rparr>)
   \<and> qb_where (JObj [(f, JArr vs)]) q =
        (None, q\<lparr>q_where := q_where q @
           [f @ '' IN ('' @
            js_join '', '' (map (\<lambda>v. [CHR 0x27] @ toString v @ [CHR 0x27]) vs) @ '')'']\<rparr>)"
  by (cases v) (simp_all add: where_single_entry push_where_def quoted_list_def)

theorem where_scalar_and_array_fragments_witness:
  "qb_where (JObj [(''name'', JStr ''O'Brien'')]) new_QueryBuilder =
     (None, new_QueryBuilder\<lparr>q_where := [''name = 'O'Brien'' @ [CHR 0x27]]\<rparr>)
   \<and> qb_where (JObj [(''age'', JNum 30)]) new_QueryBuilder =
     (None, new_QueryBuilder\<lparr>q_where := [''age = '30'' @ [CHR 0x27]]\<rparr>)
   \<and> qb_where (JObj [(''id'', JArr [JNum 2, JStr ''a'']) ]) new_QueryBuilder =
     (None, new_QueryBuilder\<lparr>q_where := [''id IN ('2', 'a')'']\<rparr>)"
  using where_scalar_and_array_fragments[of "JStr ''O'Brien''" "''name''" new_QueryBuilder
          "''O'Brien''" "[]"]
        where_scalar_and_array_fragments[of "JNum 30" "''age''" new_QueryBuilder "[]"
          "[JNum 2, JStr ''a'']"]
        where_scalar_and_array_fragments[of "JNum 30" "''id''" new_QueryBuilder "[]"
          "[JNum 2, JStr ''a'']"]
  by (simp add: new_QueryBuilder_def eval_number)

text \<open>
  C5.  An entry of an operator map whose tag is none of the recognised ones adds no fragment
  and throws nothing: alone it leaves the builder as it was, and among other entries the
  call does exactly what it does on the map without that entry.
\<close>

theorem where_unrecognised_operator_dropped:
  "tag \<notin> set recognised_operators \<longrightarrow>
     qb_where (JObj [(f, JObj [(tag, v)])]) q = (None, q) \<and>
     qb_where (JObj [(f, JObj (es1 @ (tag, v) # es2))]) q =
       qb_where (JObj [(f, JObj (es1 @ es2))]) q"
proof
  assume "tag \<notin> set recognised_operators"
  then have skip: "\<And>s. complex_case f (tag, v) s = (None, s)"
    by (simp add: complex_case_unrecognised del: complex_case.simps)
  have "handleComplexCondition f (JObj (es1 @ (tag, v) # es2)) q =
        handleComplexCondition f (JObj (es1 @ es2)) q"
    by (simp add: handleComplexCondition_def
        for_each_skip[of "complex_case f" "(tag, v)", OF skip])
  moreover have "handleComplexCondition f (JObj [(tag, v)]) q = (None, q)"
    by (simp add: handleComplexCondition_def skip del: complex_case.simps)
  ultimately show "qb_where (JObj [(f, JObj [(tag, v)])]) q = (None, q) \<and>
     qb_where (JObj [(f, JObj (es1 @ (tag, v) # es2))]) q =
       qb_where (JObj [(f, JObj (es1 @ es2))]) q"
    by (simp only: where_single_entry where_case.simps)
qed

theorem where_unrecognised_operator_dropped_witness:
  "qb_where (JObj [(''age'', JObj [(''between'', JArr [JNum 1, JNum 9])])]) new_QueryBuilder =
     (None, new_QueryBuilder)
   \<and> qb_where (JObj [(''age'', JObj [(''gte'', JNum 18), (''between'', JArr [JNum 1, JNum 9]),
                                     (''lte'', JNum 65)])]) new_QueryBuilder =
     (None, new_QueryBuilder\<lparr>q_where :=
        [''age >= '18'' @ [CHR 0x27], ''age <= '65'' @ [CHR 0x27]]\<rparr>)"
proof -
  have rest: "qb_where (JObj [(''age'', JObj ([(''gte'', JNum 18)] @ [(''lte'', JNum 65)]))])
      new_QueryBuilder =
     (None, new_QueryBuilder\<lparr>q_where :=
        [''age >= '18'' @ [CHR 0x27], ''age <= '65'' @ [CHR 0x27]]\<rparr>)"
    by (simp add: where_single_entry handleComplexCondition_def push_where_def
        new_QueryBuilder_def eval_number)
  show ?thesis
    using where_unrecognised_operator_dropped[of "''between''" "''age''"
        "JArr [JNum 1, JNum 9]" new_QueryBuilder "[(''gte'', JNum 18)]" "[(''lte'', JNum 65)]"]
      where_unrecognised_operator_dropped[of "''between''" "''age''"
        "JArr [JNum 1, JNum 9]" new_QueryBuilder "[]" "[]"]
      rest
    by (simp add: recognised_operators_def)
qed

section \<open>Builder state and rendering\<close>

lemma complex_case_prefix: "prefix (q_where q) (q_where (snd (complex_case f e q)))"
  by (cases e) (simp add: push_where_def split: sum.splits)

lemma for_each_prefix:
  assumes "\<And>x s. prefix (q_where s) (q_where (snd (body x s)))"
  shows "prefix (q_where s) (q_where (snd (for_each body xs s)))"
proof (induction xs arbitrary: s)
  case Nil
  then show ?case by simp
next
  case (Cons x xs)
  obtain r s1 where b: "body x s = (r, s1)" by (cases "body x s")
  have p1: "prefix (q_where s) (q_where s1)" using assms[of s x] b by simp
  show ?case
  proof (cases r)
    case None
    then show ?thesis using b p1 Cons[of s1] by (auto intro: prefix_order.trans)
  next
    case (Some e)
    then show ?thesis using b p1 by simp
  qed
qed

lemma handleComplexCondition_prefix:
  "prefix (q_where q) (q_where (snd (handleComplexCondition f v q)))"
  by (cases "object_entries v")
     (simp_all add: handleComplexCondition_def for_each_prefix complex_case_prefix
        del: complex_case.simps)

lemma where_case_prefix: "prefix (q_where q) (q_where (snd (where_case e q)))"
proof (cases e)
  case (Pair f v)
  then show ?thesis
    by (cases v) (simp_all add: push_where_def handleComplexCondition_prefix)
qed

lemma qb_where_prefix: "prefix (q_where q) (q_where (snd (qb_where c q)))"
  by (cases c)
     (simp_all add: push_where_def for_each_prefix where_case_prefix indexed_def
        del: where_case.simps)

text \<open>
  C3, as the code has it.  \<open>select\<close> and \<open>groupBy\<close> called with a string or an array, and
  \<open>from\<close> called with any table, replace what was stored: the new state is the argument's
  alone.  Every call of \<open>where\<close>, also one that throws, keeps the fragments stored before
  it and only appends.  \<open>orderBy\<close> with a string appends one sort key (direction \<open>ASC\<close>
  when none is given); \<open>orderBy\<close> with an array replaces the stored sort keys by the array.
\<close>

theorem replace_and_accumulate:
  "q_select (select (JStr s) q) = [JStr s]
   \<and> q_select (select (JArr xs) q) = xs
   \<and> q_from (qb_from t q) = t
   \<and> q_groupBy (groupBy (JStr s) q) = [JStr s]
   \<and> q_groupBy (groupBy (JArr xs) q) = xs
   \<and> prefix (q_where q) (q_where (snd (qb_where c q)))
   \<and> q_orderBy (orderBy (JStr fld) d q) =
       q_orderBy q @ [JStr (fld @ '' '' @ toString (if d = JUndefined then JStr ''ASC'' else d))]
   \<and> q_orderBy (orderBy (JArr xs) d q) = xs"
  by (simp add: qb_from_def qb_where_prefix del: toString.simps)

theorem replace_and_accumulate_witness:
  "q_select (select (JStr ''id'') (select (JArr [JStr ''name'', JStr ''email'']) new_QueryBuilder))
     = [JStr ''id'']
   \<and> q_orderBy (orderBy (JStr ''age'') (JStr ''DESC'')
        (orderBy (JStr ''name'') JUndefined new_QueryBuilder))
     = [JStr ''name ASC'', JStr ''age DESC'']"
  using replace_and_accumulate[of "''id''"
          "select (JArr [JStr ''name'', JStr ''email'']) new_QueryBuilder"]
        replace_and_accumulate[of _ "orderBy (JStr ''name'') JUndefined new_QueryBuilder" _ _ _
          "''age''" "JStr ''DESC''"]
        replace_and_accumulate[of _ new_QueryBuilder _ _ _ "''name''" JUndefined]
  by (simp add: new_QueryBuilder_def)

text \<open>
  The claim as stated fails: after \<open>orderBy('name')\<close>, the call \<open>orderBy(['age DESC'])\<close>
  leaves the sort keys \<open>['age DESC']\<close>, of which the earlier key \<open>name ASC\<close> is no part.
\<close>

theorem orderBy_array_discards_earlier_keys:
  "\<not> prefix (q_orderBy (orderBy (JStr ''name'') JUndefined new_QueryBuilder))
      (q_orderBy (orderBy (JArr [JStr ''age DESC'']) JUndefined
         (orderBy (JStr ''name'') JUndefined new_QueryBuilder)))"
  by (simp add: new_QueryBuilder_def)

text \<open>
  C6.  \<open>build()\<close> leaves the builder as it finds it, and a second \<open>build()\<close> right after
  the first returns the same string.
\<close>

theorem build_pure: "snd (build q) = q \<and> fst (build (snd (build q))) = fst (build q)"
  by (simp add: build_def Let_def)

theorem build_pure_witness:
  "snd (build (qb_from (JStr ''users'') new_QueryBuilder)) = qb_from (JStr ''users'') new_QueryBuilder
   \<and> fst (build (snd (build (qb_from (JStr ''users'') new_QueryBuilder)))) =
       fst (build (qb_from (JStr ''users'') new_QueryBuilder))"
  using build_pure[of "qb_from (JStr ''users'') new_QueryBuilder"] by simp

section \<open>Absent clauses\<close>

lemma sublist_sep:
  assumes "c \<notin> set kw"
  shows "sublist kw (xs @ c # ys) \<longleftrightarrow> sublist kw xs \<or> sublist kw ys"
proof
  assume "sublist kw (xs @ c # ys)"
  then consider "sublist kw xs" | "sublist kw (c # ys)"
    | k1 k2 where "kw = k1 @ k2" "suffix k1 xs" "prefix k2 (c # ys)"
    by (auto simp: sublist_append)
  then show "sublist kw xs \<or> sublist kw ys"
  proof cases
    case 1
    then show ?thesis by simp
  next
    case 2
    then have "prefix kw (c # ys) \<or> sublist kw ys" by (simp add: sublist_Cons_right)
    moreover have "kw = []" if "prefix kw (c # ys)"
      using that assms by (cases kw) auto
    ultimately show ?thesis by auto
  next
    case 3
    have "k2 = []" using 3(1,3) assms by (cases k2) auto
    with 3 show ?thesis by (auto simp: suffix_def)
  qed
next
  assume "sublist kw xs \<or> sublist kw ys"
  then show "sublist kw (xs @ c # ys)"
    by (auto simp: sublist_append sublist_Cons_right)
qed

lemma sublist_spaced:
  assumes "CHR '' '' \<notin> set kw"
  shows "sublist kw (x @ spaced ws) \<longleftrightarrow>
           sublist kw x \<or> (\<exists>w\<in>set ws. sublist kw w) \<or> kw = []"
proof (induction ws arbitrary: x)
  case Nil
  then show ?case by (auto simp: spaced_def)
next
  case (Cons w ws)
  have "x @ spaced (w # ws) = (x @ CHR '' '' # w) @ spaced ws"
    by (simp add: spaced_def)
  then show ?case
    using Cons[of "x @ CHR '' '' # w"] sublist_sep[OF assms, of x w] by auto
qed

lemma foldl_joins_spaced:
  "foldl (\<lambda>sql j. sql @ '' '' @ toString (j_type j) @ '' JOIN '' @
            toString (j_table j) @ '' ON '' @ toString (j_condition j)) acc js =
   acc @ spaced (concat (map (\<lambda>j. [toString (j_type j), ''JOIN'', toString (j_table j), ''ON'',
                        toString (j_condition j)]) js))"
  by (induction js arbitrary: acc) (simp_all add: spaced_def)

lemma build_spaced: "fst (build q) = ''SELECT'' @ spaced (build_tokens q)"
  unfolding build_def Let_def foldl_joins_spaced build_tokens_def
  by (simp add: spaced_def)

lemma sublist_join_comma:
  assumes "CHR '' '' \<notin> set kw" "CHR '','' \<notin> set kw" "kw \<noteq> []"
  shows "sublist kw (js_join '', '' xs) \<Longrightarrow> \<exists>x\<in>set xs. sublist kw x"
proof (induction "'', ''" xs rule: js_join.induct)
  case 1
  then show ?case using assms by simp
next
  case (2 x)
  then show ?case by simp
next
  case (3 x y ys)
  have "x @ '', '' @ js_join '', '' (y # ys) =
        x @ CHR '','' # ([] @ CHR '' '' # js_join '', '' (y # ys))"
    by simp
  then have "sublist kw x \<or> sublist kw (js_join '', '' (y # ys))"
    using 3(2) assms
    by (simp only: js_join.simps sublist_sep[OF assms(2)] sublist_sep[OF assms(1)]) auto
  then show ?case using 3(1) by auto
qed

lemma sublist_join_and:
  assumes "CHR '' '' \<notin> set kw" "kw \<noteq> []"
  shows "sublist kw (js_join '' AND '' xs) \<Longrightarrow>
           sublist kw ''AND'' \<or> (\<exists>x\<in>set xs. sublist kw x)"
proof (induction "'' AND ''" xs rule: js_join.induct)
  case 1
  then show ?case using assms by simp
next
  case (2 x)
  then show ?case by simp
next
  case (3 x y ys)
  have "x @ '' AND '' @ js_join '' AND '' (y # ys) =
        x @ CHR '' '' # (''AND'' @ CHR '' '' # js_join '' AND '' (y # ys))"
    by simp
  then have "sublist kw x \<or> sublist kw ''AND'' \<or> sublist kw (js_join '' AND '' (y # ys))"
    using 3(2) by (simp only: js_join.simps sublist_sep[OF assms(1)])
  then show ?case using 3(1) by auto
qed

lemma sublist_array_join:
  assumes "CHR '' '' \<notin> set kw" "CHR '','' \<notin> set kw" "kw \<noteq> []"
    and "sublist kw (array_join '', '' xs)"
  shows "\<exists>x\<in>set xs. sublist kw (element_text x)"
  using sublist_join_comma[OF assms(1,2,3), of "map element_text xs"] assms(4)
  by (auto simp: array_join_def)

lemma token_sublist:
  assumes sp: "CHR '' '' \<notin> set kw" and cm: "CHR '','' \<notin> set kw" and ne: "kw \<noteq> []"
    and free: "keyword_free kw q"
    and tok: "w \<in> set (build_tokens q)" and sub: "sublist kw w"
  shows "sublist kw ''FROM''
    \<or> (q_joins q \<noteq> [] \<and> (sublist kw ''JOIN'' \<or> sublist kw ''ON''))
    \<or> (q_where q \<noteq> [] \<and> (sublist kw ''WHERE'' \<or> sublist kw ''AND''))
    \<or> (q_groupBy q \<noteq> [] \<and> (sublist kw ''GROUP'' \<or> sublist kw ''BY''))
    \<or> (q_having q \<noteq> [] \<and> (sublist kw ''HAVING'' \<or> sublist kw ''AND''))
    \<or> (q_orderBy q \<noteq> [] \<and> (sublist kw ''ORDER'' \<or> sublist kw ''BY''))
    \<or> (q_limit q \<noteq> JNull \<and> sublist kw ''LIMIT'')
    \<or> (q_offset q \<noteq> JNull \<and> sublist kw ''OFFSET'')"
proof -
  have texts: "\<And>t. t \<in> set (caller_texts q) \<Longrightarrow> \<not> sublist kw t"
    using free by (simp add: keyword_free_def)
  have sel: "\<not> sublist kw (array_join '', '' (q_select q))"
  proof
    assume "sublist kw (array_join '', '' (q_select q))"
    then obtain x where "x \<in> set (q_select q)" "sublist kw (element_text x)"
      using sublist_array_join[OF sp cm ne] by blast
    then show False using texts[of "element_text x"] by (simp add: caller_texts_def)
  qed
  have grp: "\<not> sublist kw (array_join '', '' (q_groupBy q))"
  proof
    assume "sublist kw (array_join '', '' (q_groupBy q))"
    then obtain x where "x \<in> set (q_groupBy q)" "sublist kw (element_text x)"
      using sublist_array_join[OF sp cm ne] by blast
    then show False using texts[of "element_text x"] by (simp add: caller_texts_def)
  qed
  have ord: "\<not> sublist kw (array_join '', '' (q_orderBy q))"
  proof
    assume "sublist kw (array_join '', '' (q_orderBy q))"
    then obtain x where "x \<in> set (q_orderBy q)" "sublist kw (element_text x)"
      using sublist_array_join[OF sp cm ne] by blast
    then show False using texts[of "element_text x"] by (simp add: caller_texts_def)
  qed
  have whr: "sublist kw ''AND''" if "sublist kw (js_join '' AND '' (q_where q))"
  proof -
    have "\<not> (\<exists>x\<in>set (q_where q). sublist kw x)"
      using texts by (auto simp: caller_texts_def)
    then show ?thesis using sublist_join_and[OF sp ne that] by blast
  qed
  have hav: "sublist kw ''AND''" if "sublist kw (js_join '' AND '' (q_having q))"
  proof -
    have "\<not> (\<exists>x\<in>set (q_having q). sublist kw x)"
      using texts by (auto simp: caller_texts_def)
    then show ?thesis using sublist_join_and[OF sp ne that] by blast
  qed
  have frm: "\<not> sublist kw (toString (q_from q))"
    using texts by (simp add: caller_texts_def)
  have lim: "\<not> sublist kw (toString (q_limit q))"
    using texts by (simp add: caller_texts_def)
  have off: "\<not> sublist kw (toString (q_offset q))"
    using texts by (simp add: caller_texts_def)
  have jtexts: "\<And>j. j \<in> set (q_joins q) \<Longrightarrow> \<not> sublist kw (toString (j_type j)) \<and>
      \<not> sublist kw (toString (j_table j)) \<and> \<not> sublist kw (toString (j_condition j))"
    using texts by (auto simp: caller_texts_def)
  from tok have
    "w \<in> set [array_join '', '' (q_select q), ''FROM'', toString (q_from q)]
     \<or> w \<in> set (concat (map (\<lambda>j. [toString (j_type j), ''JOIN'', toString (j_table j), ''ON'',
                        toString (j_condition j)]) (q_joins q)))
     \<or> w \<in> set (if q_where q = [] then [] else [''WHERE'', js_join '' AND '' (q_where q)])
     \<or> w \<in> set (if q_groupBy q = [] then []
                  else [''GROUP'', ''BY'', array_join '', '' (q_groupBy q)])
     \<or> w \<in> set (if q_having q = [] then [] else [''HAVING'', js_join '' AND '' (q_having q)])
     \<or> w \<in> set (if q_orderBy q = [] then []
                  else [''ORDER'', ''BY'', array_join '', '' (q_orderBy q)])
     \<or> w \<in> set (if q_limit q = JNull then [] else [''LIMIT'', toString (q_limit q)])
     \<or> w \<in> set (if q_offset q = JNull then [] else [''OFFSET'', toString (q_offset q)])"
    unfolding build_tokens_def by (simp only: set_append Un_iff)
  then consider
      (hd) "w \<in> set [array_join '', '' (q_select q), ''FROM'', toString (q_from q)]"
    | (jn) "w \<in> set (concat (map (\<lambda>j. [toString (j_type j), ''JOIN'', toString (j_table j),
                        ''ON'', toString (j_condition j)]) (q_joins q)))"
    | (wh) "w \<in> set (if q_where q = [] then [] else [''WHERE'', js_join '' AND '' (q_where q)])"
    | (gr) "w \<in> set (if q_groupBy q = [] then []
                      else [''GROUP'', ''BY'', array_join '', '' (q_groupBy q)])"
    | (hv) "w \<in> set (if q_having q = [] then []
                      else [''HAVING'', js_join '' AND '' (q_having q)])"
    | (ob) "w \<in> set (if q_orderBy q = [] then []
                      else [''ORDER'', ''BY'', array_join '', '' (q_orderBy q)])"
    | (lm) "w \<in> set (if q_limit q = JNull then [] else [''LIMIT'', toString (q_limit q)])"
    | (os) "w \<in> set (if q_offset q = JNull then [] else [''OFFSET'', toString (q_offset q)])"
    by blast
  then show ?thesis
  proof cases
    case hd
    then have "w = array_join '', '' (q_select q) \<or> w = ''FROM'' \<or> w = toString (q_from q)"
      by simp
    then show ?thesis using sub sel frm by blast
  next
    case jn
    then obtain j where j: "j \<in> set (q_joins q)"
      and "w = toString (j_type j) \<or> w = ''JOIN'' \<or> w = toString (j_table j) \<or> w = ''ON''
           \<or> w = toString (j_condition j)"
      by auto
    moreover have "q_joins q \<noteq> []" using j by auto
    ultimately show ?thesis using sub jtexts[OF j] by blast
  next
    case wh
    then have "q_where q \<noteq> [] \<and> (w = ''WHERE'' \<or> w = js_join '' AND '' (q_where q))"
      by (simp split: if_splits)
    then show ?thesis using sub whr by blast
  next
    case gr
    then have "q_groupBy q \<noteq> [] \<and>
        (w = ''GROUP'' \<or> w = ''BY'' \<or> w = array_join '', '' (q_groupBy q))"
      by (simp split: if_splits)
    then show ?thesis using sub grp by blast
  next
    case hv
    then have "q_having q \<noteq> [] \<and> (w = ''HAVING'' \<or> w = js_join '' AND '' (q_having q))"
      by (simp split: if_splits)
    then show ?thesis using sub hav by blast
  next
    case ob
    then have "q_orderBy q \<noteq> [] \<and>
        (w = ''ORDER'' \<or> w = ''BY'' \<or> w = array_join '', '' (q_orderBy q))"
      by (simp split: if_splits)
    then show ?thesis using sub ord by blast
  next
    case lm
    then have "q_limit q \<noteq> JNull \<and> (w = ''LIMIT'' \<or> w = toString (q_limit q))"
      by (simp split: if_splits)
    then show ?thesis using sub lim by blast
  next
    case os
    then have "q_offset q \<noteq> JNull \<and> (w = ''OFFSET'' \<or> w = toString (q_offset q))"
      by (simp split: if_splits)
    then show ?thesis using sub off by blast
  qed
qed

lemma build_sublist:
  assumes sp: "CHR '' '' \<notin> set kw" and cm: "CHR '','' \<notin> set kw" and ne: "kw \<noteq> []"
    and free: "keyword_free kw q"
    and sub: "sublist kw (fst (build q))"
  shows "sublist kw ''SELECT'' \<or> sublist kw ''FROM''
    \<or> (q_joins q \<noteq> [] \<and> (sublist kw ''JOIN'' \<or> sublist kw ''ON''))
    \<or> (q_where q \<noteq> [] \<and> (sublist kw ''WHERE'' \<or> sublist kw ''AND''))
    \<or> (q_groupBy q \<noteq> [] \<and> (sublist kw ''GROUP'' \<or> sublist kw ''BY''))
    \<or> (q_having q \<noteq> [] \<and> (sublist kw ''HAVING'' \<or> sublist kw ''AND''))
    \<or> (q_orderBy q \<noteq> [] \<and> (sublist kw ''ORDER'' \<or> sublist kw ''BY''))
    \<or> (q_limit q \<noteq> JNull \<and> sublist kw ''LIMIT'')
    \<or> (q_offset q \<noteq> JNull \<and> sublist kw ''OFFSET'')"
proof -
  from sub have "sublist kw (''SELECT'' @ spaced (build_tokens q))"
    by (simp only: build_spaced)
  then have "sublist kw ''SELECT'' \<or> (\<exists>w\<in>set (build_tokens q). sublist kw w)"
    using sublist_spaced[OF sp, of "''SELECT''" "build_tokens q"] ne by blast
  then show ?thesis
    using token_sublist[OF sp cm ne free] by blast
qed

lemma no_where_keyword:
  assumes "q_where q = []" "keyword_free ''WHERE'' q"
  shows "\<not> sublist ''WHERE'' (fst (build q))"
proof
  assume "sublist ''WHERE'' (fst (build q))"
  from build_sublist[OF _ _ _ assms(2) this] assms(1)
  show False by (simp add: sublist_Cons_right)
qed

lemma no_join_keyword:
  assumes "q_joins q = []" "keyword_free ''JOIN'' q"
  shows "\<not> sublist ''JOIN'' (fst (build q))"
proof
  assume "sublist ''JOIN'' (fst (build q))"
  from build_sublist[OF _ _ _ assms(2) this] assms(1)
  show False by (simp add: sublist_Cons_right)
qed

lemma no_group_keyword:
  assumes "q_groupBy q = []" "keyword_free ''GROUP'' q"
  shows "\<not> sublist ''GROUP'' (fst (build q))"
proof
  assume "sublist ''GROUP'' (fst (build q))"
  from build_sublist[OF _ _ _ assms(2) this] assms(1)
  show False by (simp add: sublist_Cons_right)
qed

lemma no_having_keyword:
  assumes "q_having q = []" "keyword_free ''HAVING'' q"
  shows "\<not> sublist ''HAVING'' (fst (build q))"
proof
  assume "sublist ''HAVING'' (fst (build q))"
  from build_sublist[OF _ _ _ assms(2) this] assms(1)
  show False by (simp add: sublist_Cons_right)
qed

lemma no_order_keyword:
  assumes "q_orderBy q = []" "keyword_free ''ORDER'' q"
  shows "\<not> sublist ''ORDER'' (fst (build q))"
proof
  assume "sublist ''ORDER'' (fst (build q))"
  from build_sublist[OF _ _ _ assms(2) this] assms(1)
  show False by (simp add: sublist_Cons_right)
qed

lemma no_limit_keyword:
  assumes "q_limit q = JNull" "keyword_free ''LIMIT'' q"
  shows "\<not> sublist ''LIMIT'' (fst (build q))"
proof
  assume "sublist ''LIMIT'' (fst (build q))"
  from build_sublist[OF _ _ _ assms(2) this] assms(1)
  show False by (simp add: sublist_Cons_right)
qed

lemma no_offset_keyword:
  assumes "q_offset q = JNull" "keyword_free ''OFFSET'' q"
  shows "\<not> sublist ''OFFSET'' (fst (build q))"
proof
  assume "sublist ''OFFSET'' (fst (build q))"
  from build_sublist[OF _ _ _ assms(2) this] assms(1)
  show False by (simp add: sublist_Cons_right)
qed

lemma build_bare:
  assumes "q_joins q = []" "q_where q = []" "q_groupBy q = []" "q_having q = []"
    "q_orderBy q = []" "q_limit q = JNull" "q_offset q = JNull"
  shows "fst (build q) =
           ''SELECT '' @ array_join '', '' (q_select q) @ '' FROM '' @ toString (q_from q)"
  using assms by (simp add: build_def)

text \<open>
  C7.  When no condition has been accumulated, the statement \<open>build()\<close> returns contains
  the keyword \<open>WHERE\<close> nowhere, provided none of the caller's own texts (columns, table,
  join parts, sort keys, ...) contains it.  Likewise \<open>JOIN\<close> with no joins, \<open>GROUP\<close>
  with no grouping, \<open>HAVING\<close> with no having condition, \<open>ORDER\<close> with no sort key,
  \<open>LIMIT\<close> with the limit unset and \<open>OFFSET\<close> with the offset unset.  With all of them
  empty or unset the statement is exactly \<open>SELECT <columns> FROM <table>\<close>.
\<close>

theorem build_omits_empty_clauses:
  "(q_where q = [] \<and> keyword_free ''WHERE'' q \<longrightarrow> \<not> sublist ''WHERE'' (fst (build q)))
   \<and> (q_joins q = [] \<and> keyword_free ''JOIN'' q \<longrightarrow> \<not> sublist ''JOIN'' (fst (build q)))
   \<and> (q_groupBy q = [] \<and> keyword_free ''GROUP'' q \<longrightarrow> \<not> sublist ''GROUP'' (fst (build q)))
   \<and> (q_having q = [] \<and> keyword_free ''HAVING'' q \<longrightarrow> \<not> sublist ''HAVING'' (fst (build q)))
   \<and> (q_orderBy q = [] \<and> keyword_free ''ORDER'' q \<longrightarrow> \<not> sublist ''ORDER'' (fst (build q)))
   \<and> (q_limit q = JNull \<and> keyword_free ''LIMIT'' q \<longrightarrow> \<not> sublist ''LIMIT'' (fst (build q)))
   \<and> (q_offset q = JNull \<and> keyword_free ''OFFSET'' q \<longrightarrow> \<not> sublist ''OFFSET'' (fst (build q)))
   \<and> (q_joins q = [] \<and> q_where q = [] \<and> q_groupBy q = [] \<and> q_having q = [] \<and>
       q_orderBy q = [] \<and> q_limit q = JNull \<and> q_offset q = JNull \<longrightarrow>
       fst (build q) =
         ''SELECT '' @ array_join '', '' (q_select q) @ '' FROM '' @ toString (q_from q))"
  using no_where_keyword no_join_keyword no_group_keyword no_having_keyword no_order_keyword
    no_limit_keyword no_offset_keyword build_bare
  by blast

lemma users_query_keyword_free:
  "kw \<in> {''WHERE'', ''JOIN'', ''GROUP'', ''HAVING'', ''ORDER'', ''LIMIT'', ''OFFSET''} \<Longrightarrow>
   keyword_free kw (qb_from (JStr ''users'') (select (JArr [JStr ''name'', JStr ''email''])
     new_QueryBuilder))"
  by (auto simp: keyword_free_def caller_texts_def qb_from_def new_QueryBuilder_def
      element_text_def sublist_Cons_right)

theorem build_omits_empty_clauses_witness:
  "\<not> sublist ''WHERE'' (fst (build (qb_from (JStr ''users'')
       (select (JArr [JStr ''name'', JStr ''email'']) new_QueryBuilder))))
   \<and> \<not> sublist ''ORDER'' (fst (build (qb_from (JStr ''users'')
       (select (JArr [JStr ''name'', JStr ''email'']) new_QueryBuilder))))
   \<and> \<not> sublist ''LIMIT'' (fst (build (qb_from (JStr ''users'')
       (select (JArr [JStr ''name'', JStr ''email'']) new_QueryBuilder))))
   \<and> fst (build (qb_from (JStr ''users'')
       (select (JArr [JStr ''name'', JStr ''email'']) new_QueryBuilder))) =
     ''SELECT name, email FROM users''"
proof -
  let ?q = "qb_from (JStr ''users'') (select (JArr [JStr ''name'', JStr ''email'']) new_QueryBuilder)"
  note clauses = build_omits_empty_clauses[of ?q]
  have empty: "q_joins ?q = []" "q_where ?q = []" "q_groupBy ?q = []" "q_having ?q = []"
    "q_orderBy ?q = []" "q_limit ?q = JNull" "q_offset ?q = JNull"
    by (simp_all add: qb_from_def new_QueryBuilder_def)
  have rendered: "''SELECT '' @ array_join '', '' (q_select ?q) @ '' FROM '' @ toString (q_from ?q) =
      ''SELECT name, email FROM users''"
    by (simp add: qb_from_def new_QueryBuilder_def array_join_def element_text_def)
  have kf: "keyword_free ''WHERE'' ?q" "keyword_free ''ORDER'' ?q" "keyword_free ''LIMIT'' ?q"
    by (rule users_query_keyword_free, simp)+
  have "\<not> sublist ''WHERE'' (fst (build ?q))"
    by (rule clauses[THEN conjunct1, THEN mp]) (intro conjI empty kf)
  moreover have "\<not> sublist ''ORDER'' (fst (build ?q))"
    by (rule clauses[THEN conjunct2, THEN conjunct2, THEN conjunct2, THEN conjunct2,
          THEN conjunct1, THEN mp]) (intro conjI empty kf)
  moreover have "\<not> sublist ''LIMIT'' (fst (build ?q))"
    by (rule clauses[THEN conjunct2, THEN conjunct2, THEN conjunct2, THEN conjunct2,
          THEN conjunct2, THEN conjunct1, THEN mp]) (intro conjI empty kf)
  moreover have "fst (build ?q) = ''SELECT name, email FROM users''"
    unfolding rendered[symmetric]
    by (rule clauses[THEN conjunct2, THEN conjunct2, THEN conjunct2, THEN conjunct2,
          THEN conjunct2, THEN conjunct2, THEN conjunct2, THEN mp]) (intro conjI empty)
  ultimately show ?thesis by (intro conjI)
qed

section \<open>Connection and Model\<close>

lemma connect_requests: "connect drv c = (r, c1) \<Longrightarrow> requests c1 = requests c"
  by (auto simp: connect_def split: if_splits sum.splits)

lemma query_requests:
  assumes "connect drv c = (Inr (Some cl), c1)"
  shows "requests (snd (query drv sql opts c)) =
           requests c @ [\<lparr>r_query = sql, r_format = js_or (o_format opts) (JStr ''JSON''),
                           r_query_params = js_or (o_params opts) (JObj [])\<rparr>]"
  using assms connect_requests[OF assms]
  by (simp add: query_def Let_def split: sum.splits)

lemma findAll_no_options_requests:
  assumes "tableName m = JStr ''users''" "connect drv c = (Inr (Some cl), c1)"
  shows "map r_query (requests (snd (findAll drv m no_options c))) =
           map r_query (requests c) @ [''SELECT * FROM users'']"
proof -
  have "snd (findAll drv m no_options c) =
        snd (query drv ''SELECT * FROM users'' \<lparr>o_format = JUndefined, o_params = JUndefined\<rparr> c)"
    using assms(1)
    by (simp add: findAll_def no_options_def js_or_def execute_def eval_builder
        split: prod.splits sum.splits)
  then show ?thesis
    using query_requests[OF assms(2), of "''SELECT * FROM users''"]
    by simp
qed

text \<open>
  C4, as the code has it.  The builder has no default column list of its own: with
  \<open>select\<close> never called, or called with no argument, \<open>from('users').build()\<close> returns
  \<open>SELECT  FROM users\<close>, with nothing between \<open>SELECT\<close> and \<open>FROM\<close>.  The column \<open>*\<close>
  comes from \<open>select('*')\<close>, after which \<open>build()\<close> returns exactly
  \<open>SELECT * FROM users\<close>; \<open>findAll\<close> of a model passes \<open>'*'\<close> when it is given no
  attributes, so that with no options at all it sends \<open>SELECT * FROM users\<close>.
\<close>

theorem default_columns:
  "fst (build (qb_from (JStr ''users'') new_QueryBuilder)) = ''SELECT  FROM users''
   \<and> fst (build (qb_from (JStr ''users'') (select JUndefined new_QueryBuilder))) =
       ''SELECT  FROM users''
   \<and> fst (build (qb_from (JStr ''users'') (select (JStr ''*'') new_QueryBuilder))) =
       ''SELECT * FROM users''
   \<and> (tableName m = JStr ''users'' \<and> connect drv c = (Inr (Some cl), c1) \<longrightarrow>
       map r_query (requests (snd (findAll drv m no_options c))) =
         map r_query (requests c) @ [''SELECT * FROM users''])"
proof (intro conjI impI)
  show "fst (build (qb_from (JStr ''users'') new_QueryBuilder)) = ''SELECT  FROM users''"
    by (simp add: eval_builder)
  show "fst (build (qb_from (JStr ''users'') (select JUndefined new_QueryBuilder))) =
       ''SELECT  FROM users''"
    by (simp add: eval_builder)
  show "fst (build (qb_from (JStr ''users'') (select (JStr ''*'') new_QueryBuilder))) =
       ''SELECT * FROM users''"
    by (simp add: eval_builder)
next
  assume a: "tableName m = JStr ''users'' \<and> connect drv c = (Inr (Some cl), c1)"
  show "map r_query (requests (snd (findAll drv m no_options c))) =
         map r_query (requests c) @ [''SELECT * FROM users'']"
    by (rule findAll_no_options_requests[OF a[THEN conjunct1] a[THEN conjunct2]])
qed

lemma connect_fresh:
  "connect (answering_driver response) fresh_connection =
     (Inr (Some ()), fresh_connection\<lparr>client := Some (), isConnected := True\<rparr>)"
  by (simp add: connect_def answering_driver_def fresh_connection_def)

theorem default_columns_witness:
  "map r_query (requests (snd (findAll (answering_driver (JObj [(''data'', JArr [])]))
      users_model no_options fresh_connection))) = [''SELECT * FROM users'']"
proof -
  have "tableName users_model = JStr ''users''" by (simp add: users_model_def)
  moreover have "requests fresh_connection = []" by (simp add: fresh_connection_def)
  ultimately show ?thesis
    using default_columns[of users_model "answering_driver (JObj [(''data'', JArr [])])"
        fresh_connection "()" "fresh_connection\<lparr>client := Some (), isConnected := True\<rparr>"]
      connect_fresh[of "JObj [(''data'', JArr [])]"]
    by simp
qed

text \<open>
  The claim as stated fails: a new builder with \<open>from('users')\<close> does not build
  \<open>SELECT * FROM users\<close>.
\<close>

theorem default_columns_not_star:
  "fst (build (qb_from (JStr ''users'') new_QueryBuilder)) \<noteq> ''SELECT * FROM users''"
  by (simp add: eval_builder)

text \<open>
  C8.  When the connection has a client and the client's \<open>query\<close> call for the statement is
  rejected with an error \<open>e\<close>, \<open>Connection.query\<close> fails with an error whose message is
  \<open>Query execution failed: \<close> followed by the message of \<open>e\<close>; the client has then received
  that one request and no other, so nothing was retried.
\<close>

theorem query_failure_wrapped:
  assumes "connect drv c = (Inr (Some cl), c1)"
    and "client_query drv cl (requests c1)
           \<lparr>r_query = sql, r_format = js_or (o_format opts) (JStr ''JSON''),
            r_query_params = js_or (o_params opts) (JObj [])\<rparr> = Inl e"
  shows "query drv sql opts c =
           (Inl (Error (''Query execution failed: '' @ message e)),
            c1\<lparr>requests := requests c @
               [\<lparr>r_query = sql, r_format = js_or (o_format opts) (JStr ''JSON''),
                 r_query_params = js_or (o_params opts) (JObj [])\<rparr>]\<rparr>)"
  using assms connect_requests[OF assms(1)] by (simp add: query_def Let_def)

theorem query_failure_wrapped_witness:
  "query failing_driver ''INVALID SQL STATEMENT'' \<lparr>o_format = JUndefined, o_params = JUndefined\<rparr>
     fresh_connection =
   (Inl (Error ''Query execution failed: Syntax error''),
    fresh_connection\<lparr>client := Some (), isConnected := True,
      requests := [\<lparr>r_query = ''INVALID SQL STATEMENT'', r_format = JStr ''JSON'',
                    r_query_params = JObj []\<rparr>]\<rparr>)"
  using query_failure_wrapped[of failing_driver fresh_connection "()"
      "fresh_connection\<lparr>client := Some (), isConnected := True\<rparr>"
      "''INVALID SQL STATEMENT''" "\<lparr>o_format = JUndefined, o_params = JUndefined\<rparr>"
      "Error ''Syntax error''"]
  by (simp add: connect_def failing_driver_def fresh_connection_def js_or_def)

text \<open>
  C10.  When \<open>findAll\<close> with the same options but \<open>limit\<close> set to 1 resolves to a sequence
  of rows, \<open>findOne\<close> resolves, in the same final state, to the first of these rows, and to
  \<open>null\<close> when there is none.
\<close>

theorem findOne_first_row:
  assumes "findAll drv m (opts\<lparr>fo_limit := JNum 1\<rparr>) c = (Inr (JArr rows), c')"
    and "\<forall>r\<in>set rows. is_row r"
  shows "findOne drv m opts c = (Inr (case rows of [] \<Rightarrow> JNull | r # rs \<Rightarrow> r), c')"
proof (cases rows)
  case Nil
  then show ?thesis using assms by (simp add: findOne_def js_or_def)
next
  case (Cons r rs)
  then have "is_row r" using assms(2) by simp
  then have "truthy r" by (cases r) simp_all
  then show ?thesis using assms(1) Cons by (simp add: findOne_def js_or_def)
qed

lemma findAll_users:
  "findAll (answering_driver (JObj [(''data'', JArr rows)])) users_model
     (no_options\<lparr>fo_limit := JNum 1\<rparr>) fresh_connection =
   (Inr (JArr rows),
    fresh_connection\<lparr>client := Some (), isConnected := True,
      requests := [\<lparr>r_query = ''SELECT * FROM users LIMIT 1'', r_format = JStr ''JSON'',
                    r_query_params = JObj []\<rparr>]\<rparr>)"
  by (simp add: findAll_def answering_driver_def users_model_def no_options_def
      fresh_connection_def js_or_def execute_def query_def connect_def eval_builder eval_number)

theorem findOne_first_row_witness:
  "findOne (answering_driver (JObj [(''data'', JArr [JObj [(''id'', JNum 7)], JObj [(''id'', JNum 9)]])]))
     users_model no_options fresh_connection =
   (Inr (JObj [(''id'', JNum 7)]),
    fresh_connection\<lparr>client := Some (), isConnected := True,
      requests := [\<lparr>r_query = ''SELECT * FROM users LIMIT 1'', r_format = JStr ''JSON'',
                    r_query_params = JObj []\<rparr>]\<rparr>)
   \<and> findOne (answering_driver (JObj [(''data'', JArr [])])) users_model no_options
       fresh_connection =
   (Inr JNull,
    fresh_connection\<lparr>client := Some (), isConnected := True,
      requests := [\<lparr>r_query = ''SELECT * FROM users LIMIT 1'', r_format = JStr ''JSON'',
                    r_query_params = JObj []\<rparr>]\<rparr>)"
  using findOne_first_row[OF findAll_users[of "[JObj [(''id'', JNum 7)], JObj [(''id'', JNum 9)]]"]]
    findOne_first_row[OF findAll_users[of "[]"]]
  by simp

section \<open>Schema\<close>










end
